theory Spec2Isabelle
  imports Main
begin

section \<open>Data model of \<open>eventually.ts\<close>\<close>

text \<open>
  A promise either resolves with a value, rejects with an error, or stays pending for
  ever. The caller's callbacks (the operation, the \<open>fail\<close> handler, the \<open>redirect\<close>
  function) are asynchronous functions that may read and write variables they close
  over; the model passes those variables around as one state of type \<open>'s\<close>, so a callback
  is a function from the state to the way its promise settles and the new state.
  Callbacks act on that state only: they do not call \<open>configureDefaults\<close> and do not write
  to the options object of the call in flight, nor to an array it refers to.
\<close>

datatype ('e, 'a) settled = Resolves 'a | Rejects 'e | NeverSettles

text \<open>
  \<open>ErrorHandlingStrategies\<close> is a numeric enum: \<open>fail = 1\<close>, \<open>halt = 2\<close>, \<open>suppress = 3\<close>,
  \<open>retry = 4\<close>. A handler's result is a number (\<open>typeof\<close> is not \<open>"object"\<close>) or an
  options object.
\<close>

abbreviation (input) strategy_fail :: int where "strategy_fail \<equiv> 1"
abbreviation (input) strategy_halt :: int where "strategy_halt \<equiv> 2"
abbreviation (input) strategy_suppress :: int where "strategy_suppress \<equiv> 3"
abbreviation (input) strategy_retry :: int where "strategy_retry \<equiv> 4"

datatype 'o handler_result = Strategy int | NewOptions 'o

text \<open>\<open>backoff?: number[] | number\<close>; an array is given by what it holds.\<close>

datatype backoff_value = Scalar int | Sequence "int list"

text \<open>
  \<open>IRedirectingEventuallyOptions\<close>: every field is optional, \<open>None\<close> is \<open>undefined\<close>.
  \<open>IEventuallyOptions\<close> is the same record with \<open>redirect\<close> left undefined.
\<close>

datatype ('e, 'v, 's) options = Options
  (retries: "int option")
  (fail: "('e \<Rightarrow> 's \<Rightarrow> ('e, ('e, 'v, 's) options handler_result) settled \<times> 's) option")
  (backoff: "backoff_value option")
  (redirect: "('e \<Rightarrow> 's \<Rightarrow> ('e, 'v) settled \<times> 's) option")

type_synonym ('e, 'v, 's) EventualFunction = "'s \<Rightarrow> ('e, 'v) settled \<times> 's"

type_synonym ('e, 'v, 's) ErrorHandler =
  "'e \<Rightarrow> 's \<Rightarrow> ('e, ('e, 'v, 's) options handler_result) settled \<times> 's"

text \<open>
  What is observed of a run: the operation being invoked, \<open>sleep(ms)\<close> being awaited,
  and the \<open>fail\<close> handler being invoked with the last error.
\<close>

datatype 'e event = Attempt | Sleep int | FailCall 'e

text \<open>
  The value a rejected call carries: an error thrown by a callback, passed on as it is,
  or the engine's own \<open>Error\<close> for a strategy outside the enum, which embeds the strategy
  and the last error.
\<close>

datatype 'e rejection = Thrown 'e | UnhandledStrategy int 'e

text \<open>
  How the promise returned by \<open>eventually\<close> ends: \<open>Resolved None\<close> is a promise resolved
  with \<open>undefined\<close>, \<open>Pending\<close> a promise that never settles.
\<close>

datatype ('e, 'v) outcome = Resolved "'v option" | Rejected "'e rejection" | Pending

text \<open>
  The result of one call of \<open>eventually\<close>: how its promise ends, the events in order,
  the callbacks' state afterwards, and the content afterwards of the object that the
  call's \<open>options\<close> variable refers to, the array of its \<open>backoff\<close> included
  (\<open>resolveOptions\<close> writes to the object in place, and \<open>tryDo\<close> is handed the array).
\<close>

record ('e, 'v, 's) run =
  outcome :: "('e, 'v) outcome"
  trace :: "'e event list"
  final :: 's
  options_after :: "('e, 'v, 's) options"

section \<open>Module state\<close>

text \<open>
  The module's three \<open>let\<close> variables, and the content of the array created on line 93
  (\<open>[] as number[]\<close>). That array is the value of \<open>defaultBackoff\<close> until
  \<open>configureDefaults\<close> assigns another one, and the \<open>backoff\<close> of \<open>defaultOptions\<close> for ever.
  \<open>resolveOptions\<close> hands it, by reference, to every caller that leaves \<open>backoff\<close>
  undefined, so a caller can change its content between two calls; the module state of a
  call records the content at that call. The module itself never writes to it.
\<close>

record ('e, 'v, 's) module_state =
  defaultRetries :: int
  defaultFailHandler :: "('e, 'v, 's) ErrorHandler"
  defaultBackoff :: "int list"
  loadedBackoff :: "int list"

definition initial_module :: "('e, 'v, 's) module_state" where
  "initial_module =
     \<lparr> defaultRetries = 0,
       defaultFailHandler = (\<lambda>e s. (Resolves (Strategy strategy_fail), s)),
       defaultBackoff = [],
       loadedBackoff = [] \<rparr>"

text \<open>
  \<open>defaultOptions\<close> is a \<open>const\<close> object built once, when the module is loaded:
  \<open>retries\<close> and \<open>fail\<close> hold the values the variables had then, for ever (no statement
  assigns to the object, and the object itself is never handed out); \<open>backoff\<close> refers
  to the array of line 93, whatever it holds.
\<close>

definition defaultOptions :: "('e, 'v, 's) module_state \<Rightarrow> ('e, 'v, 's) options" where
  "defaultOptions m =
     Options (Some (defaultRetries (initial_module :: ('e, 'v, 's) module_state)))
             (Some (defaultFailHandler (initial_module :: ('e, 'v, 's) module_state)))
             (Some (Sequence (loadedBackoff m)))
             None"

section \<open>Helpers\<close>

text \<open>\<open>omit(obj, "redirect")\<close>: a new object with every key of \<open>obj\<close> but \<open>redirect\<close>.\<close>

definition omit_redirect :: "('e, 'v, 's) options \<Rightarrow> ('e, 'v, 's) options" where
  "omit_redirect obj = Options (retries obj) (fail obj) (backoff obj) None"

fun ensureArray :: "backoff_value \<Rightarrow> int list" where
  "ensureArray (Sequence xs) = xs"
| "ensureArray (Scalar x) = [x]"

text \<open>
  JavaScript's \<open>a || b\<close> on an optional number: \<open>undefined\<close> and \<open>0\<close> are falsy.
\<close>

fun number_or :: "int option \<Rightarrow> int \<Rightarrow> int" where
  "number_or None d = d"
| "number_or (Some x) d = (if x = 0 then d else x)"

text \<open>\<open>options.backoff || defaultBackoff\<close>: an array is truthy, also when empty.\<close>

fun backoff_or :: "backoff_value option \<Rightarrow> int list \<Rightarrow> backoff_value" where
  "backoff_or None d = Sequence d"
| "backoff_or (Some (Scalar x)) d = (if x = 0 then Sequence d else Scalar x)"
| "backoff_or (Some (Sequence xs)) d = Sequence xs"

text \<open>\<open>xs[xs.length - 1]\<close> is \<open>undefined\<close> on an empty array.\<close>

fun last_element :: "int list \<Rightarrow> int option" where
  "last_element [] = None"
| "last_element xs = Some (last xs)"

text \<open>\<open>xs.shift()\<close>: the first element (\<open>undefined\<close> when empty) and the array left.\<close>

fun shift :: "int list \<Rightarrow> int option \<times> int list" where
  "shift [] = (None, [])"
| "shift (x # xs) = (Some x, xs)"

section \<open>configureDefaults and resolveOptions\<close>

definition configureDefaults ::
  "('e, 'v, 's) options \<Rightarrow> ('e, 'v, 's) module_state \<Rightarrow> ('e, 'v, 's) module_state" where
  "configureDefaults opts m =
     (let m1 = (case retries opts of None \<Rightarrow> m | Some r \<Rightarrow> m\<lparr>defaultRetries := r\<rparr>);
          m2 = (case fail opts of None \<Rightarrow> m1 | Some f \<Rightarrow> m1\<lparr>defaultFailHandler := f\<rparr>);
          m3 = (case backoff opts of None \<Rightarrow> m2
                | Some b \<Rightarrow> m2\<lparr>defaultBackoff := ensureArray b\<rparr>)
      in m3)"

text \<open>
  \<open>resolveOptions\<close> returns \<open>defaultOptions\<close> itself when no options are given. Otherwise
  it assigns \<open>defaultOptions[k]\<close> to \<open>options[k]\<close> for each key \<open>k\<close> of \<open>defaultOptions\<close>
  that is \<open>undefined\<close> in \<open>options\<close>, and returns \<open>options\<close>: the same object, written
  in place, so the record returned is also what the caller's object holds afterwards.
  It reads \<open>defaultOptions\<close>, not the module's variables.
\<close>

definition resolveOptions ::
  "('e, 'v, 's) module_state \<Rightarrow> ('e, 'v, 's) options option \<Rightarrow> ('e, 'v, 's) options" where
  "resolveOptions m options =
     (case options of
        None \<Rightarrow> defaultOptions m
      | Some opts \<Rightarrow>
          Options
            (case retries opts of None \<Rightarrow> retries (defaultOptions m) | Some r \<Rightarrow> Some r)
            (case fail opts of None \<Rightarrow> fail (defaultOptions m) | Some f \<Rightarrow> Some f)
            (case backoff opts of None \<Rightarrow> backoff (defaultOptions m) | Some b \<Rightarrow> Some b)
            (redirect opts))"

section \<open>tryDo\<close>

text \<open>
  \<open>tryDo\<close> is handed an array by reference. Two array objects are alive in it: the one
  handed in, and the copy that \<open>backoff.slice()\<close> makes; the variable \<open>backoff\<close> refers to
  one of them, and \<open>backoff.shift()\<close> writes to the one it refers to.
\<close>

datatype array_ref = Argument | Copy

type_synonym arrays = "array_ref \<Rightarrow> int list"

definition shift_at :: "arrays \<Rightarrow> array_ref \<Rightarrow> int option \<times> arrays" where
  "shift_at arrs v = (case shift (arrs v) of (d, rest) \<Rightarrow> (d, arrs(v := rest)))"

text \<open>
  The \<open>do ... while (attempts++ < retries)\<close> loop, entered with the fallback delay, the
  array the variable \<open>backoff\<close> refers to, the attempt counter and the content of the
  arrays. It returns how the promise of \<open>tryDo\<close> settles, the events, the callbacks'
  state and the content of the arrays.
\<close>

function tryDo_loop ::
  "('e, 'v, 's) EventualFunction \<Rightarrow> int \<Rightarrow> int \<Rightarrow> array_ref \<Rightarrow> nat \<Rightarrow> arrays \<Rightarrow> 's
     \<Rightarrow> ('e, 'v) settled \<times> 'e event list \<times> 's \<times> arrays" where
  "tryDo_loop func retries' fallbackBackoff backoff' attempts arrs s =
     (let (slept, arrs1) =
            (if attempts > 0
             then (case shift_at arrs backoff' of
                     (d, arrs1) \<Rightarrow> ([Sleep (number_or d fallbackBackoff)], arrs1))
             else ([], arrs))
      in case func s of
           (Resolves v, s') \<Rightarrow> (Resolves v, slept @ [Attempt], s', arrs1)
         | (NeverSettles, s') \<Rightarrow> (NeverSettles, slept @ [Attempt], s', arrs1)
         | (Rejects e, s') \<Rightarrow>
             (if int attempts < retries'
              then (case tryDo_loop func retries' fallbackBackoff backoff' (Suc attempts)
                           arrs1 s' of
                      (r, tr, s'', arrs2) \<Rightarrow> (r, slept @ [Attempt] @ tr, s'', arrs2))
              else (Rejects e, slept @ [Attempt], s', arrs1)))"
  by pat_completeness auto
termination
  by (relation "measure (\<lambda>(func, r, fb, v, a, arrs, s). nat (r - int a))") auto

text \<open>
  \<open>tryDo\<close> on an array holding \<open>backoff'\<close>: line 142 makes the copy and lets the variable
  refer to it, line 143 reads the fallback delay from it. The last component of the
  result is what the array handed in holds when \<open>tryDo\<close> is done.
\<close>

definition tryDo ::
  "('e, 'v, 's) EventualFunction \<Rightarrow> int \<Rightarrow> int list \<Rightarrow> 's
     \<Rightarrow> ('e, 'v) settled \<times> 'e event list \<times> 's \<times> int list" where
  "tryDo func retries' backoff' s =
     (let arrs0 = (\<lambda>v. case v of Argument \<Rightarrow> backoff' | Copy \<Rightarrow> []);
          arrs1 = arrs0(Copy := arrs0 Argument);
          fallbackBackoff = number_or (last_element (arrs1 Copy)) 0
      in case tryDo_loop func retries' fallbackBackoff Copy 0 arrs1 s of
           (r, tr, s', arrs2) \<Rightarrow> (r, tr, s', arrs2 Argument))"

section \<open>eventually\<close>

text \<open>
  The events of a round come before those of the call it ends with.
\<close>

definition preceded_by :: "'e event list \<Rightarrow> ('e, 'v, 's) run \<Rightarrow> ('e, 'v, 's) run" where
  "preceded_by tr r = r\<lparr>trace := tr @ trace r\<rparr>"

text \<open>
  An options object whose \<open>backoff\<close> is an array, once that array holds \<open>xs\<close>.
\<close>

definition with_array :: "('e, 'v, 's) options \<Rightarrow> int list \<Rightarrow> ('e, 'v, 's) options" where
  "with_array opts xs =
     (case backoff opts of
        Some (Sequence ys) \<Rightarrow> Options (retries opts) (fail opts) (Some (Sequence xs)) (redirect opts)
      | _ \<Rightarrow> opts)"

text \<open>
  A nested call on the object a handler returned leaves this call's own options object
  as it is. (An array in the handler's object is taken to be another array than the
  one of this call's options.)
\<close>

definition keeping :: "('e, 'v, 's) options \<Rightarrow> ('e, 'v, 's) run \<Rightarrow> ('e, 'v, 's) run" where
  "keeping opts r = r\<lparr>options_after := opts\<rparr>"

text \<open>
  The copy made by \<open>omit\<close> is shallow: its \<open>backoff\<close> is the array of this call's options.
  After a nested call on the copy, this call's options object is as it was, with the
  array holding what the nested call left in it.
\<close>

definition sharing_array ::
  "('e, 'v, 's) options \<Rightarrow> ('e, 'v, 's) run \<Rightarrow> ('e, 'v, 's) run" where
  "sharing_array opts r =
     r\<lparr>options_after :=
         (case backoff (options_after r) of
            Some (Sequence ys) \<Rightarrow> with_array opts ys
          | _ \<Rightarrow> opts)\<rparr>"

text \<open>
  The function is named \<open>eventually'\<close> here, \<open>eventually\<close> being a constant of HOL.
  \<open>eventually\<close> calls itself, directly and through its two helpers, and need not return
  (a handler that answers \<open>retry\<close> for ever): the first argument bounds the depth of
  nested calls of \<open>eventually\<close>, and \<open>None\<close> says the bound was reached. The second
  argument is the module state the call reads. The array handed to \<open>tryDo\<close> is the one
  of the resolved options when their \<open>backoff\<close> is an array, so what \<open>tryDo\<close> leaves in
  it is what the options hold from then on.
\<close>

fun eventually' ::
  "nat \<Rightarrow> ('e, 'v, 's) module_state \<Rightarrow> ('e, 'v, 's) EventualFunction
     \<Rightarrow> ('e, 'v, 's) options option \<Rightarrow> 's \<Rightarrow> ('e, 'v, 's) run option"
and handleComplexEventualFailResult ::
  "nat \<Rightarrow> ('e, 'v, 's) module_state \<Rightarrow> ('e, 'v, 's) options
     \<Rightarrow> ('e, 'v, 's) EventualFunction \<Rightarrow> 'e \<Rightarrow> 's \<Rightarrow> ('e, 'v, 's) run option"
and handleSimpleEventuallyResult ::
  "nat \<Rightarrow> ('e, 'v, 's) module_state \<Rightarrow> int \<Rightarrow> ('e, 'v, 's) EventualFunction
     \<Rightarrow> ('e, 'v, 's) options \<Rightarrow> 'e \<Rightarrow> 's \<Rightarrow> ('e, 'v, 's) run option"
where
  "eventually' 0 m func options s = None"
| "eventually' (Suc n) m func options s =
     (let opts0 = resolveOptions m options;
          retries' = number_or (retries opts0) (defaultRetries m);
          backoff' = backoff_or (backoff opts0) (defaultBackoff m)
      in case tryDo func retries' (ensureArray backoff') s of
           (result, tr, s1, arr) \<Rightarrow>
             (let opts = with_array opts0 arr
              in case result of
                   Resolves v \<Rightarrow>
                     Some \<lparr>outcome = Resolved (Some v), trace = tr, final = s1,
                           options_after = opts\<rparr>
                 | NeverSettles \<Rightarrow>
                     Some \<lparr>outcome = Pending, trace = tr, final = s1, options_after = opts\<rparr>
                 | Rejects lastError \<Rightarrow>
                     (case redirect opts of
                        Some redirect' \<Rightarrow>
                          map_option (\<lambda>r. preceded_by tr (sharing_array opts r))
                            (eventually' n m (redirect' lastError)
                               (Some (omit_redirect opts)) s1)
                      | None \<Rightarrow>
                          (case fail opts of
                             None \<Rightarrow>
                               Some \<lparr>outcome = Rejected (Thrown lastError), trace = tr,
                                     final = s1, options_after = opts\<rparr>
                           | Some fail' \<Rightarrow>
                               (case fail' lastError s1 of
                                  (Rejects h, s2) \<Rightarrow>
                                    Some \<lparr>outcome = Rejected (Thrown h),
                                          trace = tr @ [FailCall lastError], final = s2,
                                          options_after = opts\<rparr>
                                | (NeverSettles, s2) \<Rightarrow>
                                    Some \<lparr>outcome = Pending,
                                          trace = tr @ [FailCall lastError], final = s2,
                                          options_after = opts\<rparr>
                                | (Resolves (NewOptions handlerResult), s2) \<Rightarrow>
                                    map_option
                                      (\<lambda>r. preceded_by (tr @ [FailCall lastError])
                                             (keeping opts r))
                                      (handleComplexEventualFailResult n m handlerResult
                                         func lastError s2)
                                | (Resolves (Strategy handlerResult), s2) \<Rightarrow>
                                    map_option (preceded_by (tr @ [FailCall lastError]))
                                      (handleSimpleEventuallyResult n m handlerResult func
                                         opts lastError s2))))))"
| "handleComplexEventualFailResult n m opts originalFunction lastError s =
     (case redirect opts of
        Some redirect' \<Rightarrow>
          eventually' n m (redirect' lastError) (Some (omit_redirect opts)) s
      | None \<Rightarrow> eventually' n m originalFunction (Some opts) s)"
| "handleSimpleEventuallyResult n m strategy func opts lastError s =
     (if strategy = strategy_fail then
        Some \<lparr>outcome = Rejected (Thrown lastError), trace = [], final = s,
              options_after = opts\<rparr>
      else if strategy = strategy_retry then eventually' n m func (Some opts) s
      else if strategy = strategy_halt then
        Some \<lparr>outcome = Pending, trace = [], final = s, options_after = opts\<rparr>
      else if strategy = strategy_suppress then
        Some \<lparr>outcome = Resolved None, trace = [], final = s, options_after = opts\<rparr>
      else
        Some \<lparr>outcome = Rejected (UnhandledStrategy strategy lastError), trace = [],
              final = s, options_after = opts\<rparr>)"

section \<open>Vocabulary of the properties\<close>

text \<open>The state after \<open>k\<close> invocations of an operation in a row.\<close>

definition state_after :: "('e, 'v, 's) EventualFunction \<Rightarrow> nat \<Rightarrow> 's \<Rightarrow> 's" where
  "state_after func k s = ((\<lambda>t. snd (func t)) ^^ k) s"

text \<open>An operation that rejects at every invocation, starting from the state \<open>s\<close>.\<close>

definition fails_every_time :: "('e, 'v, 's) EventualFunction \<Rightarrow> 's \<Rightarrow> bool" where
  "fails_every_time func s = (\<forall>k. \<exists>e. fst (func (state_after func k s)) = Rejects e)"

text \<open>The number of invocations of the operation, and the delays awaited, in a trace.\<close>

fun attempts_of :: "'e event list \<Rightarrow> nat" where
  "attempts_of [] = 0"
| "attempts_of (Attempt # tr) = Suc (attempts_of tr)"
| "attempts_of (_ # tr) = attempts_of tr"

fun delays_of :: "'e event list \<Rightarrow> int list" where
  "delays_of [] = []"
| "delays_of (Sleep d # tr) = d # delays_of tr"
| "delays_of (_ # tr) = delays_of tr"

text \<open>
  One iteration of the loop of \<open>tryDo\<close>, on the content \<open>b\<close> of the array the variable
  \<open>backoff\<close> refers to: what it awaits before invoking the operation, and what it leaves
  in the array.
\<close>

definition slept_before :: "int list \<Rightarrow> int \<Rightarrow> nat \<Rightarrow> 'e event list" where
  "slept_before b fb a = (if a > 0 then [Sleep (number_or (fst (shift b)) fb)] else [])"

definition rest_after :: "int list \<Rightarrow> nat \<Rightarrow> int list" where
  "rest_after b a = (if a > 0 then snd (shift b) else b)"

text \<open>
  The \<open>retries\<close> and \<open>backoff\<close> that \<open>eventually\<close> hands to \<open>tryDo\<close>
  (\<open>options.retries || defaultRetries\<close>, \<open>ensureArray(options.backoff || defaultBackoff)\<close>,
  on the resolved options).
\<close>

definition effective_retries ::
  "('e, 'v, 's) module_state \<Rightarrow> ('e, 'v, 's) options option \<Rightarrow> int" where
  "effective_retries m options =
     number_or (retries (resolveOptions m options)) (defaultRetries m)"

definition effective_backoff ::
  "('e, 'v, 's) module_state \<Rightarrow> ('e, 'v, 's) options option \<Rightarrow> int list" where
  "effective_backoff m options =
     ensureArray (backoff_or (backoff (resolveOptions m options)) (defaultBackoff m))"

section \<open>The retry loop\<close>

declare tryDo_loop.simps [simp del]

lemma attempts_of_append: "attempts_of (xs @ ys) = attempts_of xs + attempts_of ys"
  by (induction xs rule: attempts_of.induct) auto

lemma delays_of_append: "delays_of (xs @ ys) = delays_of xs @ delays_of ys"
  by (induction xs rule: delays_of.induct) auto

lemma state_after_Suc: "state_after func (Suc k) s = state_after func k (snd (func s))"
  unfolding state_after_def by (induction k) simp_all

lemma fails_every_time_step:
  assumes "fails_every_time func s"
  shows "fails_every_time func (snd (func s))"
  unfolding fails_every_time_def
proof
  fix k
  from assms obtain e where "fst (func (state_after func (Suc k) s)) = Rejects e"
    unfolding fails_every_time_def by blast
  then show "\<exists>e. fst (func (state_after func k (snd (func s)))) = Rejects e"
    by (simp add: state_after_Suc)
qed

lemma fails_every_time_now:
  assumes "fails_every_time func s"
  obtains e s' where "func s = (Rejects e, s')"
proof -
  from assms obtain e where "fst (func (state_after func 0 s)) = Rejects e"
    unfolding fails_every_time_def by blast
  then have "func s = (Rejects e, snd (func s))"
    by (simp add: state_after_def prod_eq_iff)
  then show thesis by (rule that)
qed

text \<open>The loop, unfolded once, by what the invocation does.\<close>

lemma tryDo_loop_unfold:
  assumes "func s = (x, s')"
  shows "tryDo_loop func r fb v a arrs s =
     (case x of
        Resolves y \<Rightarrow>
          (Resolves y, slept_before (arrs v) fb a @ [Attempt], s',
           arrs(v := rest_after (arrs v) a))
      | NeverSettles \<Rightarrow>
          (NeverSettles, slept_before (arrs v) fb a @ [Attempt], s',
           arrs(v := rest_after (arrs v) a))
      | Rejects e \<Rightarrow>
          (if int a < r
           then (case tryDo_loop func r fb v (Suc a) (arrs(v := rest_after (arrs v) a)) s' of
                   (res, tr, s'', arrs') \<Rightarrow>
                     (res, slept_before (arrs v) fb a @ [Attempt] @ tr, s'', arrs'))
           else (Rejects e, slept_before (arrs v) fb a @ [Attempt], s',
                 arrs(v := rest_after (arrs v) a))))"
  by (subst tryDo_loop.simps)
     (simp add: assms slept_before_def rest_after_def shift_at_def case_prod_beta Let_def
       split: settled.splits)

lemma tryDo_loop_Rejects:
  assumes "func s = (Rejects e, s')"
  shows "tryDo_loop func r fb v a arrs s =
     (if int a < r
      then (case tryDo_loop func r fb v (Suc a) (arrs(v := rest_after (arrs v) a)) s' of
              (res, tr, s'', arrs') \<Rightarrow>
                (res, slept_before (arrs v) fb a @ [Attempt] @ tr, s'', arrs'))
      else (Rejects e, slept_before (arrs v) fb a @ [Attempt], s',
            arrs(v := rest_after (arrs v) a)))"
  by (simp add: tryDo_loop_unfold [where func = func and s = s, OF assms])

lemma attempts_of_slept [simp]: "attempts_of (slept_before b fb a) = 0"
  by (simp add: slept_before_def)

subsection \<open>The array handed in\<close>

text \<open>
  The loop writes to the array the variable refers to, and to no other.
\<close>

lemma tryDo_loop_other_arrays:
  assumes "k = nat (r - int a)" and "w \<noteq> v"
  shows "snd (snd (snd (tryDo_loop func r fb v a arrs s))) w = arrs w"
  using assms
proof (induction k arbitrary: a arrs s)
  case 0
  obtain x s' where x: "func s = (x, s')" by (cases "func s")
  have stop: "\<not> int a < r" using "0.prems"(1) by simp
  show ?case
    using stop "0.prems"(2)
    by (simp add: tryDo_loop_unfold [where func = func and s = s, OF x]
        split: settled.splits)
next
  case (Suc k)
  obtain x s' where x: "func s = (x, s')" by (cases "func s")
  have count: "k = nat (r - int (Suc a))" using Suc.prems(1) by simp
  have rec: "snd (snd (snd (tryDo_loop func r fb v (Suc a) arrs' s'))) w = arrs' w" for arrs'
    using Suc.IH [OF count Suc.prems(2)] .
  show ?case
    using Suc.prems(2) rec [of "arrs(v := rest_after (arrs v) a)"]
    by (simp add: tryDo_loop_unfold [where func = func and s = s, OF x] case_prod_beta
        split: settled.splits)
qed

text \<open>
  \<open>tryDo\<close> leaves the array it is handed as it was: the delays are taken off the copy.
\<close>

lemma tryDo_argument_unchanged: "snd (snd (snd (tryDo func r b s))) = b"
  using tryDo_loop_other_arrays [OF refl, of Argument Copy func r
      "number_or (last_element b) 0" 0
      "(\<lambda>v. case v of Argument \<Rightarrow> b | Copy \<Rightarrow> [])(Copy := b)" s]
  by (simp add: tryDo_def case_prod_beta Let_def)

lemma tryDo_result:
  assumes "tryDo func r b s = (res, tr, s', b')"
  shows "b' = b"
  using tryDo_argument_unchanged [of func r b s] assms by simp

subsection \<open>An operation that keeps rejecting\<close>

lemma tryDo_loop_always_failing:
  assumes "fails_every_time func s" and "int a + int k = r"
  shows "\<exists>e tr arrs'. tryDo_loop func r fb v a arrs s
             = (Rejects e, tr, state_after func (Suc k) s, arrs')
           \<and> attempts_of tr = Suc k
           \<and> fst (func (state_after func k s)) = Rejects e"
  using assms
proof (induction k arbitrary: a arrs s)
  case 0
  from "0.prems"(1) obtain e s' where e: "func s = (Rejects e, s')"
    by (rule fails_every_time_now)
  have stop: "\<not> int a < r" using "0.prems"(2) by simp
  show ?case
    using stop e
    by (simp add: tryDo_loop_Rejects [where func = func and s = s, OF e] state_after_def
        attempts_of_append)
next
  case (Suc k)
  from Suc.prems(1) obtain e s' where e: "func s = (Rejects e, s')"
    by (rule fails_every_time_now)
  have s': "s' = snd (func s)" using e by simp
  have go: "int a < r" using Suc.prems(2) by simp
  have next_fails: "fails_every_time func s'"
    unfolding s' using Suc.prems(1) by (rule fails_every_time_step)
  have "int (Suc a) + int k = r" using Suc.prems(2) by simp
  from Suc.IH [OF next_fails this, of "arrs(v := rest_after (arrs v) a)"]
  obtain e' tr' arrs' where
    rec: "tryDo_loop func r fb v (Suc a) (arrs(v := rest_after (arrs v) a)) s' =
            (Rejects e', tr', state_after func (Suc k) s', arrs')"
      and n: "attempts_of tr' = Suc k"
      and l: "fst (func (state_after func k s')) = Rejects e'"
    by blast
  show ?case
    using go rec n l
    by (simp add: tryDo_loop_Rejects [where func = func and s = s, OF e]
        state_after_Suc [of func "Suc k"] state_after_Suc [of func k] s' [symmetric]
        attempts_of_append)
qed

text \<open>
  With a number of retries \<open>r \<ge> 0\<close> and an operation that rejects at every invocation,
  \<open>tryDo\<close> invokes the operation exactly \<open>r + 1\<close> times and rejects with the error of
  the last invocation, the one made in the state after \<open>r\<close> invocations.
\<close>

lemma tryDo_always_failing:
  assumes "0 \<le> r" and "fails_every_time func s"
  shows "\<exists>e tr. tryDo func r b s = (Rejects e, tr, state_after func (nat r + 1) s, b)
           \<and> attempts_of tr = nat r + 1
           \<and> fst (func (state_after func (nat r) s)) = Rejects e"
proof -
  have "int 0 + int (nat r) = r" using assms(1) by simp
  from tryDo_loop_always_failing [OF assms(2) this]
  obtain e tr arrs' where
    "tryDo_loop func r (number_or (last_element b) 0) Copy 0
       ((\<lambda>v. case v of Argument \<Rightarrow> b | Copy \<Rightarrow> [])(Copy := b)) s
       = (Rejects e, tr, state_after func (Suc (nat r)) s, arrs')"
    and "attempts_of tr = Suc (nat r)"
    and "fst (func (state_after func (nat r) s)) = Rejects e"
    by blast
  then have run: "tryDo func r b s
               = (Rejects e, tr, state_after func (nat r + 1) s, arrs' Argument)"
    and rest: "attempts_of tr = nat r + 1"
      "fst (func (state_after func (nat r) s)) = Rejects e"
    by (simp_all add: tryDo_def)
  from run have "arrs' Argument = b" by (rule tryDo_result)
  with run rest show ?thesis by simp
qed

subsection \<open>The last attempt\<close>

text \<open>
  Whenever the loop rejects, it rejects with the error of the last invocation it made.
\<close>

lemma tryDo_loop_rejects_last:
  assumes "k = nat (r - int a)"
    and "tryDo_loop func r fb v a arrs s = (Rejects E, tr, s1, arrs')"
  shows "\<exists>j. attempts_of tr = Suc j
           \<and> fst (func (state_after func j s)) = Rejects E
           \<and> s1 = state_after func (Suc j) s"
  using assms
proof (induction k arbitrary: a arrs s tr arrs')
  case 0
  obtain x s' where x: "func s = (x, s')" by (cases "func s")
  have stop: "\<not> int a < r" using "0.prems"(1) by simp
  from "0.prems"(2) stop have "x = Rejects E \<and> tr = slept_before (arrs v) fb a @ [Attempt]
      \<and> s1 = s'"
    by (simp add: tryDo_loop_unfold [where func = func and s = s, OF x]
        split: settled.splits)
  then have "attempts_of tr = Suc 0 \<and> fst (func (state_after func 0 s)) = Rejects E
      \<and> s1 = state_after func (Suc 0) s"
    using x by (simp add: attempts_of_append state_after_def)
  then show ?case by blast
next
  case (Suc k)
  obtain x s' where x: "func s = (x, s')" by (cases "func s")
  have s': "s' = snd (func s)" using x by simp
  have count: "k = nat (r - int (Suc a))" using Suc.prems(1) by simp
  have go: "int a < r" using Suc.prems(1) by simp
  obtain res tr' s'' arrs'' where
    rec: "tryDo_loop func r fb v (Suc a) (arrs(v := rest_after (arrs v) a)) s'
            = (res, tr', s'', arrs'')"
    by (cases "tryDo_loop func r fb v (Suc a) (arrs(v := rest_after (arrs v) a)) s'")
  from Suc.prems(2) go rec have parts: "x = Rejects (case x of Rejects e \<Rightarrow> e | _ \<Rightarrow> E)
      \<and> res = Rejects E \<and> tr = slept_before (arrs v) fb a @ [Attempt] @ tr' \<and> s1 = s''"
    by (simp add: tryDo_loop_unfold [where func = func and s = s, OF x]
        split: settled.splits)
  then have rec': "tryDo_loop func r fb v (Suc a) (arrs(v := rest_after (arrs v) a)) s'
            = (Rejects E, tr', s1, arrs'')"
    using rec by simp
  from Suc.IH [OF count rec'] obtain j where
    j: "attempts_of tr' = Suc j" "fst (func (state_after func j s')) = Rejects E"
       "s1 = state_after func (Suc j) s'"
    by blast
  have "attempts_of tr = Suc (Suc j)
      \<and> fst (func (state_after func (Suc j) s)) = Rejects E
      \<and> s1 = state_after func (Suc (Suc j)) s"
    using parts j
    by (simp add: attempts_of_append state_after_Suc [of func "Suc j"]
        state_after_Suc [of func j] s' [symmetric])
  then show ?case by blast
qed

lemma tryDo_rejects_last:
  assumes "tryDo func r b s = (Rejects E, tr, s1, b1)"
  shows "\<exists>j. attempts_of tr = Suc j
           \<and> fst (func (state_after func j s)) = Rejects E
           \<and> s1 = state_after func (Suc j) s"
proof -
  let ?arrs = "(\<lambda>v. case v of Argument \<Rightarrow> b | Copy \<Rightarrow> [])(Copy := b)"
  let ?fb = "number_or (last_element b) 0"
  obtain arrs' where "tryDo_loop func r ?fb Copy 0 ?arrs s = (Rejects E, tr, s1, arrs')"
    using assms by (auto simp: tryDo_def split: prod.splits)
  from tryDo_loop_rejects_last [OF refl this] show ?thesis .
qed

subsection \<open>The delays of a sequence without zero entries\<close>

text \<open>
  While the operation keeps rejecting, a backoff sequence none of whose entries is \<open>0\<close>
  is awaited entry by entry, and its last entry (or \<open>0\<close>, for the empty sequence) for
  every retry beyond its length. An entry \<open>0\<close> is not covered: the loop takes it for a
  missing entry.
\<close>

lemma schedule_step:
  assumes "0 \<notin> set b"
  shows "number_or (fst (shift b)) fb
           # take j (snd (shift b) @ replicate (j - length (snd (shift b))) fb)
         = take (Suc j) (b @ replicate (Suc j - length b) fb)"
  using assms by (cases b) auto

lemma rest_after_nonzero: "0 \<notin> set b \<Longrightarrow> 0 \<notin> set (rest_after b a)"
  by (cases b) (auto simp: rest_after_def)

lemma tryDo_loop_delays:
  assumes "fails_every_time func s" and "int a + int k = r" and "0 \<notin> set (arrs v)"
  shows "delays_of (fst (snd (tryDo_loop func r fb v a arrs s))) =
           (if a > 0 then take (Suc k) (arrs v @ replicate (Suc k - length (arrs v)) fb)
            else take k (arrs v @ replicate (k - length (arrs v)) fb))"
  using assms
proof (induction k arbitrary: a arrs s)
  case 0
  from "0.prems"(1) obtain e s' where e: "func s = (Rejects e, s')"
    by (rule fails_every_time_now)
  have stop: "\<not> int a < r" using "0.prems"(2) by simp
  show ?case
    using stop schedule_step [OF "0.prems"(3), of fb 0]
    by (simp add: tryDo_loop_Rejects [where func = func and s = s, OF e]
        delays_of_append slept_before_def)
next
  case (Suc k)
  let ?arrs = "arrs(v := rest_after (arrs v) a)"
  from Suc.prems(1) obtain e s' where e: "func s = (Rejects e, s')"
    by (rule fails_every_time_now)
  have s': "s' = snd (func s)" using e by simp
  have go: "int a < r" using Suc.prems(2) by simp
  have next_fails: "fails_every_time func s'"
    unfolding s' using Suc.prems(1) by (rule fails_every_time_step)
  have count: "int (Suc a) + int k = r" using Suc.prems(2) by simp
  have nz: "0 \<notin> set (?arrs v)"
    using rest_after_nonzero [OF Suc.prems(3)] by simp
  have held: "?arrs v = rest_after (arrs v) a" by simp
  have rec: "delays_of (fst (snd (tryDo_loop func r fb v (Suc a) ?arrs s'))) =
               take (Suc k) (rest_after (arrs v) a
                 @ replicate (Suc k - length (rest_after (arrs v) a)) fb)"
    using Suc.IH [where arrs = ?arrs, OF next_fails count nz] unfolding held
    by (simp del: fun_upd_apply)
  show ?case
  proof (cases "a > 0")
    case True
    then show ?thesis
      using go rec schedule_step [OF Suc.prems(3), of fb "Suc k"]
      by (simp add: tryDo_loop_Rejects [where func = func and s = s, OF e]
          delays_of_append slept_before_def rest_after_def case_prod_beta)
  next
    case False
    then show ?thesis
      using go rec
      by (simp add: tryDo_loop_Rejects [where func = func and s = s, OF e]
          delays_of_append slept_before_def rest_after_def case_prod_beta)
  qed
qed

lemma fallback_nonzero:
  "0 \<notin> set b \<Longrightarrow> number_or (last_element b) 0 = (if b = [] then 0 else last b)"
  by (cases b) auto

lemma tryDo_delays_nonzero:
  assumes "0 \<le> r" and "fails_every_time func s" and "0 \<notin> set b"
  shows "delays_of (fst (snd (tryDo func r b s))) =
           take (nat r) (b @ replicate (nat r - length b) (if b = [] then 0 else last b))"
proof -
  let ?arrs = "(\<lambda>v. case v of Argument \<Rightarrow> b | Copy \<Rightarrow> [])(Copy := b)"
  have "int 0 + int (nat r) = r" using assms(1) by simp
  moreover have "0 \<notin> set (?arrs Copy)" using assms(3) by simp
  ultimately show ?thesis
    using tryDo_loop_delays [OF assms(2), of 0 "nat r" r ?arrs Copy
        "number_or (last_element b) 0"]
    by (simp add: tryDo_def fallback_nonzero [OF assms(3)] case_prod_beta Let_def)
qed

lemma tryDo_delays_longer_than_sequence:
  assumes "int (length b) \<le> r" and "fails_every_time func s" and "0 \<notin> set b"
  shows "delays_of (fst (snd (tryDo func r b s))) =
           b @ replicate (nat r - length b) (if b = [] then 0 else last b)"
proof -
  have "0 \<le> r" using assms(1) by simp
  from tryDo_delays_nonzero [OF this assms(2) assms(3)] assms(1)
  show ?thesis by simp
qed

lemma scalar_backoff_as_singleton:
  "d \<noteq> 0 \<Longrightarrow>
   effective_backoff m (Some (Options r f (Some (Scalar d)) rd))
     = effective_backoff m (Some (Options r f (Some (Sequence [d])) rd))"
  by (simp add: effective_backoff_def resolveOptions_def)

section \<open>Options across the rounds\<close>

lemma resolveOptions_given:
  "retries opts = Some x \<Longrightarrow> retries (resolveOptions m (Some opts)) = Some x"
  "fail opts = Some f \<Longrightarrow> fail (resolveOptions m (Some opts)) = Some f"
  "backoff opts = Some b \<Longrightarrow> backoff (resolveOptions m (Some opts)) = Some b"
  "redirect (resolveOptions m (Some opts)) = redirect opts"
  by (simp_all add: resolveOptions_def)

lemma resolveOptions_idem:
  "resolveOptions m (Some (resolveOptions m options)) = resolveOptions m options"
  by (cases options)
     (simp_all add: resolveOptions_def defaultOptions_def initial_module_def
       split: option.splits)

lemma resolveOptions_omit_redirect:
  "resolveOptions m (Some (omit_redirect (resolveOptions m options)))
     = omit_redirect (resolveOptions m options)"
  by (cases options)
     (simp_all add: resolveOptions_def defaultOptions_def initial_module_def omit_redirect_def
       split: option.splits)

text \<open>
  An array that holds what it held is an options object that holds what it held.
\<close>

lemma with_array_same:
  "with_array opts (ensureArray (backoff_or (backoff opts) d)) = opts"
  by (cases opts)
     (simp add: with_array_def split: option.splits backoff_value.splits)

lemma with_array_own:
  "backoff opts = Some (Sequence ys) \<Longrightarrow> with_array opts ys = opts"
  by (cases opts) (simp add: with_array_def)

section \<open>One round of eventually\<close>

declare eventually'.simps [simp del]
declare handleSimpleEventuallyResult.simps [simp del]
declare handleComplexEventualFailResult.simps [simp del]

text \<open>
  A round, with the array handed to \<open>tryDo\<close> known to come back as it was.
\<close>

lemma eventually_round:
  "eventually' (Suc n) m func options s =
     (let opts = resolveOptions m options
      in case tryDo func (effective_retries m options) (effective_backoff m options) s of
           (result, tr, s1, arr) \<Rightarrow>
             (case result of
                Resolves v \<Rightarrow>
                  Some \<lparr>outcome = Resolved (Some v), trace = tr, final = s1,
                        options_after = opts\<rparr>
              | NeverSettles \<Rightarrow>
                  Some \<lparr>outcome = Pending, trace = tr, final = s1, options_after = opts\<rparr>
              | Rejects lastError \<Rightarrow>
                  (case redirect opts of
                     Some redirect' \<Rightarrow>
                       map_option (\<lambda>r. preceded_by tr (sharing_array opts r))
                         (eventually' n m (redirect' lastError) (Some (omit_redirect opts)) s1)
                   | None \<Rightarrow>
                       (case fail opts of
                          None \<Rightarrow>
                            Some \<lparr>outcome = Rejected (Thrown lastError), trace = tr,
                                  final = s1, options_after = opts\<rparr>
                        | Some fail' \<Rightarrow>
                            (case fail' lastError s1 of
                               (Rejects h, s2) \<Rightarrow>
                                 Some \<lparr>outcome = Rejected (Thrown h),
                                       trace = tr @ [FailCall lastError], final = s2,
                                       options_after = opts\<rparr>
                             | (NeverSettles, s2) \<Rightarrow>
                                 Some \<lparr>outcome = Pending,
                                       trace = tr @ [FailCall lastError], final = s2,
                                       options_after = opts\<rparr>
                             | (Resolves (NewOptions handlerResult), s2) \<Rightarrow>
                                 map_option
                                   (\<lambda>r. preceded_by (tr @ [FailCall lastError])
                                          (keeping opts r))
                                   (handleComplexEventualFailResult n m handlerResult
                                      func lastError s2)
                             | (Resolves (Strategy handlerResult), s2) \<Rightarrow>
                                 map_option (preceded_by (tr @ [FailCall lastError]))
                                   (handleSimpleEventuallyResult n m handlerResult func
                                      opts lastError s2))))))"
proof -
  obtain result tr s1 arr where
    t: "tryDo func (effective_retries m options) (effective_backoff m options) s
          = (result, tr, s1, arr)"
    by (cases "tryDo func (effective_retries m options) (effective_backoff m options) s")
  then have "arr = effective_backoff m options" by (rule tryDo_result)
  then have same: "with_array (resolveOptions m options) arr = resolveOptions m options"
    by (simp add: effective_backoff_def with_array_same)
  from t have t': "tryDo func
        (number_or (retries (resolveOptions m options)) (defaultRetries m))
        (ensureArray (backoff_or (backoff (resolveOptions m options)) (defaultBackoff m))) s
          = (result, tr, s1, arr)"
    by (simp add: effective_retries_def effective_backoff_def)
  show ?thesis
    by (simp add: eventually'.simps(2) Let_def t t' same
        cong: settled.case_cong option.case_cong prod.case_cong
          handler_result.case_cong)
qed

text \<open>
  Whatever a call does, the object its \<open>options\<close> variable refers to ends as
  \<open>resolveOptions\<close> left it: no round writes anything else to it, and no round changes
  the array its \<open>backoff\<close> refers to.
\<close>

lemma options_after_resolved:
  "eventually' n m func options s = Some r \<Longrightarrow> options_after r = resolveOptions m options"
proof (induction n arbitrary: func options s r)
  case 0
  then show ?case by (simp add: eventually'.simps)
next
  case (Suc n)
  have nested: "options_after r' = omit_redirect (resolveOptions m options)"
    if "eventually' n m f (Some (omit_redirect (resolveOptions m options))) t = Some r'"
    for f t r'
    using Suc.IH [OF that] by (simp add: resolveOptions_omit_redirect)
  have shared: "options_after (sharing_array (resolveOptions m options) r')
                  = resolveOptions m options"
    if "eventually' n m f (Some (omit_redirect (resolveOptions m options))) t = Some r'"
    for f t r'
    using nested [OF that]
    by (simp add: sharing_array_def omit_redirect_def with_array_own
        split: option.splits backoff_value.splits)
  have again: "options_after r' = resolveOptions m options"
    if "eventually' n m f (Some (resolveOptions m options)) t = Some r'" for f t r'
    using Suc.IH [OF that] by (simp add: resolveOptions_idem)
  from Suc.prems show ?case
    by (auto simp: eventually_round Let_def preceded_by_def keeping_def
        handleSimpleEventuallyResult.simps handleComplexEventualFailResult.simps
        dest: shared again
        split: prod.splits settled.splits option.splits handler_result.splits if_splits)
qed

text \<open>
  After a nested call on the copy made by \<open>omit\<close>, the options object of the call is as
  \<open>resolveOptions\<close> left it.
\<close>

lemma sharing_array_nested:
  "map_option (\<lambda>r. preceded_by tr (sharing_array (resolveOptions m options) r))
     (eventually' n m f (Some (omit_redirect (resolveOptions m options))) t)
   = map_option (\<lambda>r. preceded_by tr (keeping (resolveOptions m options) r))
       (eventually' n m f (Some (omit_redirect (resolveOptions m options))) t)"
proof (cases "eventually' n m f (Some (omit_redirect (resolveOptions m options))) t")
  case None
  then show ?thesis by simp
next
  case (Some r')
  from options_after_resolved [OF Some]
  have "options_after r' = omit_redirect (resolveOptions m options)"
    by (simp add: resolveOptions_omit_redirect)
  then have "sharing_array (resolveOptions m options) r'
               = keeping (resolveOptions m options) r'"
    by (simp add: sharing_array_def keeping_def omit_redirect_def with_array_own
        split: option.splits backoff_value.splits)
  with Some show ?thesis by simp
qed

text \<open>The definitions a run on a concrete input unfolds.\<close>

lemmas run_defs = tryDo_def tryDo_loop.simps shift_at_def effective_retries_def
  effective_backoff_def resolveOptions_def defaultOptions_def initial_module_def

text \<open>
  A call whose attempts are exhausted with last error \<open>E\<close> and whose resolved options
  hold no \<open>redirect\<close> but a \<open>fail\<close> handler awaits \<open>fail(lastError)\<close> and goes on by what
  the handler's promise does.
\<close>

lemma eventually_handler_called:
  assumes "tryDo func (effective_retries m options) (effective_backoff m options) s
             = (Rejects E, tr, s1, b1)"
    and "redirect (resolveOptions m options) = None"
    and "fail (resolveOptions m options) = Some h"
  shows "eventually' (Suc n) m func options s =
     (case h E s1 of
        (Rejects H, s2) \<Rightarrow>
          Some \<lparr>outcome = Rejected (Thrown H), trace = tr @ [FailCall E], final = s2,
                options_after = resolveOptions m options\<rparr>
      | (NeverSettles, s2) \<Rightarrow>
          Some \<lparr>outcome = Pending, trace = tr @ [FailCall E], final = s2,
                options_after = resolveOptions m options\<rparr>
      | (Resolves (NewOptions handlerResult), s2) \<Rightarrow>
          map_option
            (\<lambda>r. preceded_by (tr @ [FailCall E]) (keeping (resolveOptions m options) r))
            (handleComplexEventualFailResult n m handlerResult func E s2)
      | (Resolves (Strategy handlerResult), s2) \<Rightarrow>
          map_option (preceded_by (tr @ [FailCall E]))
            (handleSimpleEventuallyResult n m handlerResult func (resolveOptions m options)
               E s2))"
  using assms by (simp add: eventually_round Let_def)

lemma fail_resolved_default:
  "fail (resolveOptions m None) = Some (\<lambda>e s. (Resolves (Strategy strategy_fail), s))"
  "fail opts = None \<Longrightarrow>
     fail (resolveOptions m (Some opts))
       = Some (\<lambda>e s. (Resolves (Strategy strategy_fail), s))"
  by (simp_all add: resolveOptions_def defaultOptions_def initial_module_def)

text \<open>
  C7, amended. The attempts are exhausted with last error \<open>E\<close> and the resolved options
  hold no \<open>redirect\<close> (a \<open>redirect\<close> is tried before the \<open>fail\<close> handler is looked at).
  When the caller gave no \<open>fail\<close> handler (no options, or options without \<open>fail\<close>), or
  the handler resolves to the strategy \<open>fail\<close>, the call returns and its promise rejects
  with \<open>E\<close> itself; and \<open>E\<close> is the error of the last attempt: the operation was invoked
  \<open>j + 1\<close> times in the call, and \<open>E\<close> is what the invocation after \<open>j\<close> others rejected
  with.
\<close>

theorem exhaustion_fails_with_last_error:
  assumes "tryDo func (effective_retries m options) (effective_backoff m options) s
             = (Rejects E, tr, s1, b1)"
    and "redirect (resolveOptions m options) = None"
    and "options = None \<or> (\<exists>opts. options = Some opts \<and> fail opts = None)
         \<or> (\<exists>h s2. fail (resolveOptions m options) = Some h
                \<and> h E s1 = (Resolves (Strategy strategy_fail), s2))"
  shows "\<exists>r j. eventually' (Suc n) m func options s = Some r
           \<and> outcome r = Rejected (Thrown E)
           \<and> attempts_of (trace r) = Suc j
           \<and> fst (func (state_after func j s)) = Rejects E"
proof -
  from assms(3) obtain h s2 where h: "fail (resolveOptions m options) = Some h"
    and s2: "h E s1 = (Resolves (Strategy strategy_fail), s2)"
    using fail_resolved_default [where m = m] by blast
  from tryDo_rejects_last [OF assms(1)] obtain j where
    j: "attempts_of tr = Suc j" "fst (func (state_after func j s)) = Rejects E"
    by blast
  have "eventually' (Suc n) m func options s =
          Some \<lparr>outcome = Rejected (Thrown E), trace = tr @ [FailCall E], final = s2,
                options_after = resolveOptions m options\<rparr>"
    by (simp add: eventually_handler_called [OF assms(1) assms(2) h] s2 preceded_by_def
        handleSimpleEventuallyResult.simps)
  with j show ?thesis by (simp add: attempts_of_append)
qed

text \<open>
  C7 as stated fails when the options hold a \<open>redirect\<close>: no \<open>fail\<close> handler, the
  attempts exhausted with the error \<open>7\<close>, and the call resolves with what the \<open>redirect\<close>
  makes of it.
\<close>

theorem exhaustion_redirected_counterexample:
  "\<exists>r :: (nat, nat, nat) run.
     eventually' 2 initial_module (\<lambda>s. (Rejects 7, s))
       (Some (Options (Some 0) None None (Some (\<lambda>e s. (Resolves (2 * e), s))))) 0 = Some r
     \<and> outcome r = Resolved (Some 14)"
  by (simp add: numeral_2_eq_2 eventually_round eventually'.simps run_defs
      omit_redirect_def preceded_by_def sharing_array_def with_array_def)

text \<open>
  C8. When the \<open>fail\<close> handler, invoked after exhaustion, resolves to the strategy \<open>halt\<close>,
  the call returns a promise that stays pending: it neither resolves nor rejects.
\<close>

theorem halt_never_settles:
  assumes "tryDo func (effective_retries m options) (effective_backoff m options) s
             = (Rejects E, tr, s1, b1)"
    and "redirect (resolveOptions m options) = None"
    and "fail (resolveOptions m options) = Some h"
    and "h E s1 = (Resolves (Strategy strategy_halt), s2)"
  shows "\<exists>r. eventually' (Suc n) m func options s = Some r
           \<and> outcome r = Pending
           \<and> (\<forall>v. outcome r \<noteq> Resolved v) \<and> (\<forall>x. outcome r \<noteq> Rejected x)"
  by (simp add: eventually_handler_called [OF assms(1) assms(2) assms(3)] assms(4)
      preceded_by_def handleSimpleEventuallyResult.simps)

text \<open>
  C10. When the \<open>fail\<close> handler, invoked after exhaustion with the last error \<open>E\<close>, rejects
  with \<open>H\<close>, the call rejects with \<open>H\<close>. Nothing happens after the handler's invocation:
  the trace ends with it (no further attempt, no second invocation of the handler).
\<close>

theorem handler_failure_propagates:
  assumes "tryDo func (effective_retries m options) (effective_backoff m options) s
             = (Rejects E, tr, s1, b1)"
    and "redirect (resolveOptions m options) = None"
    and "fail (resolveOptions m options) = Some h"
    and "h E s1 = (Rejects H, s2)"
  shows "eventually' (Suc n) m func options s =
           Some \<lparr>outcome = Rejected (Thrown H), trace = tr @ [FailCall E], final = s2,
                 options_after = resolveOptions m options\<rparr>"
  by (simp add: eventually_handler_called [OF assms(1) assms(2) assms(3)] assms(4))

text \<open>
  C5. The resolved options hold a \<open>redirect\<close> and the attempts are exhausted with last
  error \<open>E\<close>. Then the call is the nested call of \<open>eventually\<close> on the operation
  \<open>() => redirect(E)\<close> and the options without \<open>redirect\<close>, after the events of the first
  round, and its promise ends as the nested call's does. The nested call has no
  \<open>redirect\<close>, and the same \<open>fail\<close> handler, number of retries and backoff sequence.
\<close>

theorem redirect_recurses_under_same_policy:
  assumes "tryDo func (effective_retries m options) (effective_backoff m options) s
             = (Rejects E, tr, s1, b1)"
    and "redirect (resolveOptions m options) = Some rd"
  shows "eventually' (Suc n) m func options s =
           map_option (\<lambda>r. preceded_by tr (keeping (resolveOptions m options) r))
             (eventually' n m (rd E) (Some (omit_redirect (resolveOptions m options))) s1)
         \<and> map_option outcome (eventually' (Suc n) m func options s) =
             map_option outcome
               (eventually' n m (rd E) (Some (omit_redirect (resolveOptions m options))) s1)
         \<and> redirect (resolveOptions m (Some (omit_redirect (resolveOptions m options))))
             = None
         \<and> fail (resolveOptions m (Some (omit_redirect (resolveOptions m options))))
             = fail (resolveOptions m options)
         \<and> effective_retries m (Some (omit_redirect (resolveOptions m options)))
             = effective_retries m options
         \<and> effective_backoff m (Some (omit_redirect (resolveOptions m options)))
             = effective_backoff m options"
proof -
  have step: "eventually' (Suc n) m func options s =
           map_option (\<lambda>r. preceded_by tr (keeping (resolveOptions m options) r))
             (eventually' n m (rd E) (Some (omit_redirect (resolveOptions m options))) s1)"
    using assms by (simp add: eventually_round Let_def sharing_array_nested)
  have same: "map_option outcome (eventually' (Suc n) m func options s) =
             map_option outcome
               (eventually' n m (rd E) (Some (omit_redirect (resolveOptions m options))) s1)"
    unfolding step
    by (simp add: option.map_comp comp_def preceded_by_def keeping_def)
  show ?thesis
    using step same
    by (simp add: resolveOptions_omit_redirect effective_retries_def effective_backoff_def)
       (simp add: omit_redirect_def)
qed

text \<open>
  C6. The \<open>fail\<close> handler, invoked after exhaustion, resolves to an options object without
  \<open>redirect\<close>. Then the call is the nested call of \<open>eventually\<close> on the original operation
  and that object, after the events of the first round and the handler's invocation,
  and its promise ends as the nested call's does.
\<close>

theorem handler_options_restart:
  assumes "tryDo func (effective_retries m options) (effective_backoff m options) s
             = (Rejects E, tr, s1, b1)"
    and "redirect (resolveOptions m options) = None"
    and "fail (resolveOptions m options) = Some h"
    and "h E s1 = (Resolves (NewOptions newOptions), s2)"
    and "redirect newOptions = None"
  shows "eventually' (Suc n) m func options s =
           map_option
             (\<lambda>r. preceded_by (tr @ [FailCall E]) (keeping (resolveOptions m options) r))
             (eventually' n m func (Some newOptions) s2)
         \<and> map_option outcome (eventually' (Suc n) m func options s) =
             map_option outcome (eventually' n m func (Some newOptions) s2)"
proof -
  have step: "eventually' (Suc n) m func options s =
           map_option
             (\<lambda>r. preceded_by (tr @ [FailCall E]) (keeping (resolveOptions m options) r))
             (eventually' n m func (Some newOptions) s2)"
    by (simp add: eventually_handler_called [OF assms(1) assms(2) assms(3)] assms(4) assms(5)
        handleComplexEventualFailResult.simps)
  show ?thesis
    unfolding step
    by (simp add: option.map_comp comp_def preceded_by_def keeping_def)
qed

text \<open>
  C9, amended. A call with options leaves every field the caller supplied as it was,
  the backoff sequence among them with all its entries (\<open>tryDo\<close> takes the delays off
  its own copy of the array, in every round), and \<open>redirect\<close> as it was. What the call
  writes to the caller's own object are the fields among \<open>retries\<close>, \<open>fail\<close> and
  \<open>backoff\<close> that the caller left undefined: they are defined afterwards.
\<close>

theorem caller_options_filled_in_place:
  assumes "eventually' n m func (Some opts) s = Some r"
  shows "(\<forall>x. retries opts = Some x \<longrightarrow> retries (options_after r) = Some x)
       \<and> (\<forall>f. fail opts = Some f \<longrightarrow> fail (options_after r) = Some f)
       \<and> (\<forall>b. backoff opts = Some b \<longrightarrow> backoff (options_after r) = Some b)
       \<and> redirect (options_after r) = redirect opts
       \<and> retries (options_after r) \<noteq> None
       \<and> fail (options_after r) \<noteq> None
       \<and> backoff (options_after r) \<noteq> None"
  using options_after_resolved [OF assms]
  by (simp add: resolveOptions_def defaultOptions_def split: option.splits)

text \<open>
  C9 as stated fails: after a call with the options \<open>{retries: 1}\<close>, the caller's object
  is no longer \<open>{retries: 1}\<close>.
\<close>

theorem caller_options_changed_counterexample:
  "\<exists>r :: (nat, nat, nat) run.
     eventually' 1 initial_module (\<lambda>s. (Resolves 0, s))
       (Some (Options (Some 1) None None None)) 0 = Some r
     \<and> options_after r \<noteq> Options (Some 1) None None None"
  by (simp add: eventually_round run_defs)

text \<open>
  C1, amended. The resolved options hold the number of retries \<open>r \<ge> 0\<close>, which the call
  uses as it is (\<open>r\<close> is not \<open>0\<close>, or no default number of retries is configured), and
  no \<open>redirect\<close>; the operation rejects at every invocation, the last of \<open>r + 1\<close> with
  \<open>e\<close>; the \<open>fail\<close> handler (the default one when the caller gave none) answers a
  strategy other than \<open>retry\<close>. Then the call invokes the operation exactly \<open>r + 1\<close>
  times and invokes the handler with \<open>e\<close> last; it rejects with \<open>e\<close> when the strategy is
  \<open>fail\<close>, never settles when it is \<open>halt\<close>, and resolves with \<open>undefined\<close> when it is
  \<open>suppress\<close>.
\<close>

theorem eventually_always_failing:
  assumes "retries (resolveOptions m options) = Some r" and "0 \<le> r"
    and "r \<noteq> 0 \<or> defaultRetries m = 0"
    and "fails_every_time func s"
    and "fst (func (state_after func (nat r) s)) = Rejects e"
    and "redirect (resolveOptions m options) = None"
    and "fail (resolveOptions m options) = Some h"
    and "h e (state_after func (nat r + 1) s) = (Resolves (Strategy st), s2)"
    and "st \<noteq> strategy_retry"
  shows "\<exists>run. eventually' (Suc n) m func options s = Some run
           \<and> attempts_of (trace run) = nat r + 1
           \<and> last (trace run) = FailCall e
           \<and> final run = s2
           \<and> outcome run =
               (if st = strategy_fail then Rejected (Thrown e)
                else if st = strategy_halt then Pending
                else if st = strategy_suppress then Resolved None
                else Rejected (UnhandledStrategy st e))"
proof -
  have used: "effective_retries m options = r"
    using assms(1) assms(3) by (auto simp: effective_retries_def)
  from tryDo_always_failing [OF assms(2) assms(4), of "effective_backoff m options"]
  obtain e' tr where
    t: "tryDo func r (effective_backoff m options) s
          = (Rejects e', tr, state_after func (nat r + 1) s, effective_backoff m options)"
    and count: "attempts_of tr = nat r + 1"
    and e': "fst (func (state_after func (nat r) s)) = Rejects e'"
    by blast
  from e' assms(5) have "e' = e" by simp
  with t used have exhausted:
    "tryDo func (effective_retries m options) (effective_backoff m options) s
       = (Rejects e, tr, state_after func (nat r + 1) s, effective_backoff m options)"
    by simp
  have answer: "h e (state_after func (Suc (nat r)) s) = (Resolves (Strategy st), s2)"
    using assms(8) by simp
  show ?thesis
    using count assms(9)
    by (simp add: eventually_handler_called [OF exhausted assms(6) assms(7)] answer
        handleSimpleEventuallyResult.simps preceded_by_def attempts_of_append)
qed

text \<open>
  C1 as stated fails: an operation that always rejects, one retry, a handler that
  answers \<open>suppress\<close>. The operation is invoked twice, and the call does not fail: it
  resolves with \<open>undefined\<close>.
\<close>

theorem always_failing_suppressed_counterexample:
  "\<exists>r :: (nat, nat, nat) run.
     eventually' 1 initial_module (\<lambda>s. (Rejects s, Suc s))
       (Some (Options (Some 1) (Some (\<lambda>e s. (Resolves (Strategy strategy_suppress), s)))
                None None)) 0 = Some r
     \<and> attempts_of (trace r) = 2
     \<and> outcome r = Resolved None"
  by (simp add: eventually_round handleSimpleEventuallyResult.simps run_defs
      preceded_by_def)

section \<open>The depth bound\<close>

text \<open>
  A call that returns within a bound on the depth of nested calls returns the same run
  within every larger bound.
\<close>

lemma eventually_more_depth:
  "eventually' n m func options s = Some r \<Longrightarrow> eventually' (Suc n) m func options s = Some r"
proof (induction n arbitrary: func options s r)
  case 0
  then show ?case by (simp add: eventually'.simps)
next
  case (Suc n)
  show ?case
    using Suc.prems
    apply (subst eventually_round)
    apply (subst (asm) eventually_round)
    apply (auto simp: Let_def handleSimpleEventuallyResult.simps
        handleComplexEventualFailResult.simps dest!: Suc.IH
        split: prod.splits settled.splits option.splits handler_result.splits if_splits)
    done
qed

lemma eventually_depth_mono:
  assumes "eventually' n m func options s = Some r" and "n \<le> n'"
  shows "eventually' n' m func options s = Some r"
  using assms(2) assms(1)
  by (induction n' rule: dec_induct) (simp_all add: eventually_more_depth)

section \<open>Runs on concrete inputs\<close>

text \<open>
  The callbacks' state is a natural number; errors and values are natural numbers too.
\<close>

text \<open>
  An operation that rejects with the number of earlier invocations, \<open>{retries: 2}\<close> and
  no handler: three attempts, and the call rejects with \<open>2\<close>, the error of the third.
\<close>

theorem eventually_always_failing_witness:
  "\<exists>run :: (nat, nat, nat) run.
     eventually' 1 initial_module (\<lambda>s. (Rejects s, Suc s))
       (Some (Options (Some 2) None None None)) 0 = Some run
     \<and> attempts_of (trace run) = 3
     \<and> last (trace run) = FailCall 2
     \<and> final run = 3
     \<and> outcome run = Rejected (Thrown 2)"
proof -
  let ?f = "\<lambda>s::nat. (Rejects s, Suc s) :: (nat, nat) settled \<times> nat"
  let ?h = "\<lambda>(e::nat) (s::nat).
     (Resolves (Strategy strategy_fail), s)
       :: (nat, (nat, nat, nat) options handler_result) settled \<times> nat"
  let ?o = "Some (Options (Some 2) None None None) :: (nat, nat, nat) options option"
  let ?m = "initial_module :: (nat, nat, nat) module_state"
  have iter: "state_after ?f k s = s + k" for k s
    unfolding state_after_def by (induction k) simp_all
  have a1: "retries (resolveOptions ?m ?o) = Some 2" by (simp add: resolveOptions_def)
  have a2: "(0::int) \<le> 2" by simp
  have a3: "(2::int) \<noteq> 0 \<or> defaultRetries ?m = 0" by simp
  have a4: "fails_every_time ?f 0" by (simp add: fails_every_time_def)
  have a5: "fst (?f (state_after ?f (nat 2) 0)) = Rejects 2" by (simp add: iter)
  have a6: "redirect (resolveOptions ?m ?o) = None" by (simp add: resolveOptions_def)
  have a7: "fail (resolveOptions ?m ?o) = Some ?h"
    by (simp add: resolveOptions_def defaultOptions_def initial_module_def)
  have a8: "?h 2 (state_after ?f (nat 2 + 1) 0) = (Resolves (Strategy strategy_fail), 3)"
    by (simp add: iter)
  have a9: "strategy_fail \<noteq> strategy_retry" by simp
  from eventually_always_failing [OF a1 a2 a3 a4 a5 a6 a7 a8 a9, of 0]
  show ?thesis by simp
qed

text \<open>
  An operation that rejects with ten times the number of earlier invocations, three
  retries, a handler that answers \<open>fail\<close>: the call rejects with \<open>30\<close>, the error of the
  fourth and last attempt, not with \<open>0\<close>, the error of the first.
\<close>

theorem exhaustion_fails_with_last_error_witness:
  "\<exists>r :: (nat, nat, nat) run.
     eventually' 1 initial_module (\<lambda>s. (Rejects (10 * s), Suc s))
       (Some (Options (Some 3) (Some (\<lambda>e s. (Resolves (Strategy strategy_fail), s)))
                None None)) 0 = Some r
     \<and> outcome r = Rejected (Thrown 30)
     \<and> attempts_of (trace r) = 4"
proof -
  let ?f = "\<lambda>s::nat. (Rejects (10 * s), Suc s) :: (nat, nat) settled \<times> nat"
  let ?h = "\<lambda>(e::nat) (s::nat).
     (Resolves (Strategy strategy_fail), s)
       :: (nat, (nat, nat, nat) options handler_result) settled \<times> nat"
  let ?o = "Some (Options (Some 3) (Some ?h) None None) :: (nat, nat, nat) options option"
  let ?m = "initial_module :: (nat, nat, nat) module_state"
  have iter: "state_after ?f k s = s + k" for k s
    unfolding state_after_def by (induction k) simp_all
  have t: "tryDo ?f (effective_retries ?m ?o) (effective_backoff ?m ?o) 0
             = (Rejects 30, [Attempt, Sleep 0, Attempt, Sleep 0, Attempt, Sleep 0, Attempt],
                4, [])"
    by (simp add: run_defs)
  have r: "redirect (resolveOptions ?m ?o) = None"
    by (simp add: resolveOptions_def)
  have d: "?o = None \<or> (\<exists>opts. ?o = Some opts \<and> fail opts = None)
         \<or> (\<exists>h s2. fail (resolveOptions ?m ?o) = Some h
                \<and> h 30 4 = (Resolves (Strategy strategy_fail), s2))"
    by (simp add: resolveOptions_def)
  from exhaustion_fails_with_last_error [OF t r d, of 0]
  obtain run j where
    "eventually' 1 ?m ?f ?o 0 = Some run" "outcome run = Rejected (Thrown 30)"
    "attempts_of (trace run) = Suc j" "fst (?f (state_after ?f j 0)) = Rejects 30"
    by auto
  moreover from this have "j = 3" by (simp add: iter)
  ultimately show ?thesis by simp
qed

text \<open>A handler that answers \<open>halt\<close>, after three attempts.\<close>

theorem halt_never_settles_witness:
  "\<exists>r :: (nat, nat, nat) run.
     eventually' 1 initial_module (\<lambda>s. (Rejects 7, s))
       (Some (Options (Some 2) (Some (\<lambda>e s. (Resolves (Strategy strategy_halt), s)))
          None None)) 0 = Some r
     \<and> outcome r = Pending"
proof -
  let ?f = "\<lambda>s::nat. (Rejects 7, s) :: (nat, nat) settled \<times> nat"
  let ?h = "\<lambda>(e::nat) (s::nat).
     (Resolves (Strategy strategy_halt), s)
       :: (nat, (nat, nat, nat) options handler_result) settled \<times> nat"
  let ?o = "Some (Options (Some 2) (Some ?h) None None) :: (nat, nat, nat) options option"
  let ?m = "initial_module :: (nat, nat, nat) module_state"
  have t: "tryDo ?f (effective_retries ?m ?o) (effective_backoff ?m ?o) 0
             = (Rejects 7, [Attempt, Sleep 0, Attempt, Sleep 0, Attempt], 0, [])"
    by (simp add: run_defs)
  have r: "redirect (resolveOptions ?m ?o) = None"
    by (simp add: resolveOptions_def)
  have f: "fail (resolveOptions ?m ?o) = Some ?h"
    by (simp add: resolveOptions_def)
  have h: "?h 7 0 = (Resolves (Strategy strategy_halt), 0)"
    by simp
  from halt_never_settles [OF t r f h, of 0] show ?thesis by auto
qed

text \<open>
  A handler that rejects with its argument plus ninety: the call rejects with \<open>97\<close>, and
  the handler was invoked once, after the two attempts.
\<close>

theorem handler_failure_propagates_witness:
  "eventually' 1 initial_module (\<lambda>s. (Rejects 7, s))
     (Some (Options (Some 1) (Some (\<lambda>e s. (Rejects (e + 90), Suc s))) None None)) (0::nat)
   = Some \<lparr>outcome = Rejected (Thrown (97::nat)) :: (nat, nat) outcome,
           trace = [Attempt, Sleep 0, Attempt, FailCall 7], final = 1,
           options_after =
             Options (Some 1) (Some (\<lambda>e s. (Rejects (e + 90), Suc s)))
               (Some (Sequence [])) None\<rparr>"
proof -
  let ?f = "\<lambda>s::nat. (Rejects 7, s) :: (nat, nat) settled \<times> nat"
  let ?h = "\<lambda>(e::nat) (s::nat).
     (Rejects (e + 90), Suc s)
       :: (nat, (nat, nat, nat) options handler_result) settled \<times> nat"
  let ?o = "Some (Options (Some 1) (Some ?h) None None) :: (nat, nat, nat) options option"
  let ?m = "initial_module :: (nat, nat, nat) module_state"
  have t: "tryDo ?f (effective_retries ?m ?o) (effective_backoff ?m ?o) 0
             = (Rejects 7, [Attempt, Sleep 0, Attempt], 0, [])"
    by (simp add: run_defs)
  have r: "redirect (resolveOptions ?m ?o) = None"
    by (simp add: resolveOptions_def)
  have f: "fail (resolveOptions ?m ?o) = Some ?h"
    by (simp add: resolveOptions_def)
  have h: "?h 7 0 = (Rejects 97, 1)"
    by simp
  from handler_failure_propagates [OF t r f h, of 0] show ?thesis
    by (simp add: resolveOptions_def defaultOptions_def initial_module_def)
qed

text \<open>
  A \<open>redirect\<close> that rejects too, under \<open>{retries: 1, backoff: 5, fail: suppress}\<close>: it is
  attempted twice, five milliseconds apart, then the handler is invoked with its error
  and the call resolves with \<open>undefined\<close>.
\<close>

theorem redirect_recurses_under_same_policy_witness:
  "map_option (\<lambda>r. (outcome r, trace r))
     (eventually' 2 initial_module (\<lambda>s. (Rejects 7, s))
        (Some (Options (Some 1)
                 (Some (\<lambda>e s. (Resolves (Strategy strategy_suppress), s)))
                 (Some (Scalar 5))
                 (Some (\<lambda>e s. (Rejects (e + 1), s))))) (0::nat))
   = Some (Resolved None :: (nat, nat) outcome,
           [Attempt, Sleep 5, Attempt, Attempt, Sleep 5, Attempt, FailCall (8::nat)])"
proof -
  let ?f = "\<lambda>s::nat. (Rejects 7, s) :: (nat, nat) settled \<times> nat"
  let ?h = "\<lambda>(e::nat) (s::nat).
     (Resolves (Strategy strategy_suppress), s)
       :: (nat, (nat, nat, nat) options handler_result) settled \<times> nat"
  let ?rd = "\<lambda>(e::nat) (s::nat). (Rejects (e + 1), s) :: (nat, nat) settled \<times> nat"
  let ?o = "Some (Options (Some 1) (Some ?h) (Some (Scalar 5)) (Some ?rd))
              :: (nat, nat, nat) options option"
  let ?m = "initial_module :: (nat, nat, nat) module_state"
  have t: "tryDo ?f (effective_retries ?m ?o) (effective_backoff ?m ?o) 0
             = (Rejects 7, [Attempt, Sleep 5, Attempt], 0, [5])"
    by (simp add: run_defs)
  have r: "redirect (resolveOptions ?m ?o) = Some ?rd"
    by (simp add: resolveOptions_def)
  from redirect_recurses_under_same_policy [OF t r, of 1]
  have "eventually' 2 ?m ?f ?o 0 =
          map_option
            (\<lambda>r. preceded_by [Attempt, Sleep 5, Attempt] (keeping (resolveOptions ?m ?o) r))
            (eventually' 1 ?m (?rd 7) (Some (omit_redirect (resolveOptions ?m ?o))) 0)"
    by (simp add: numeral_2_eq_2)
  then show ?thesis
    by (simp add: eventually_round handleSimpleEventuallyResult.simps run_defs
        omit_redirect_def preceded_by_def keeping_def)
qed

text \<open>
  The operation rejects with the current value of a variable (\<open>11\<close> at first); the handler
  sets the variable to \<open>42\<close> and returns options whose handler answers \<open>fail\<close>. The call
  rejects with \<open>42\<close>, the last error of the second round.
\<close>

theorem handler_options_restart_witness:
  "map_option (\<lambda>r. (outcome r, trace r, final r))
     (eventually' 2 initial_module (\<lambda>s. (Rejects s, s))
        (Some (Options (Some 2)
                 (Some (\<lambda>e s. (Resolves (NewOptions
                    (Options None
                       (Some (\<lambda>e s. (Resolves (Strategy strategy_fail), s))) None None)),
                    42)))
                 None None)) (11::nat))
   = Some (Rejected (Thrown 42) :: (nat, nat) outcome,
           [Attempt, Sleep 0, Attempt, Sleep 0, Attempt, FailCall 11, Attempt, FailCall 42],
           42)"
proof -
  let ?f = "\<lambda>s::nat. (Rejects s, s) :: (nat, nat) settled \<times> nat"
  let ?h2 = "\<lambda>(e::nat) (s::nat).
     (Resolves (Strategy strategy_fail), s)
       :: (nat, (nat, nat, nat) options handler_result) settled \<times> nat"
  let ?new = "Options None (Some ?h2) None None :: (nat, nat, nat) options"
  let ?h = "\<lambda>(e::nat) (s::nat).
     (Resolves (NewOptions ?new), 42)
       :: (nat, (nat, nat, nat) options handler_result) settled \<times> nat"
  let ?o = "Some (Options (Some 2) (Some ?h) None None) :: (nat, nat, nat) options option"
  let ?m = "initial_module :: (nat, nat, nat) module_state"
  have t: "tryDo ?f (effective_retries ?m ?o) (effective_backoff ?m ?o) 11
             = (Rejects 11, [Attempt, Sleep 0, Attempt, Sleep 0, Attempt], 11, [])"
    by (simp add: run_defs)
  have r: "redirect (resolveOptions ?m ?o) = None"
    by (simp add: resolveOptions_def)
  have f: "fail (resolveOptions ?m ?o) = Some ?h"
    by (simp add: resolveOptions_def)
  have h: "?h 11 11 = (Resolves (NewOptions ?new), 42)"
    by simp
  have n: "redirect ?new = None"
    by simp
  from handler_options_restart [OF t r f h n, of 1]
  have "eventually' 2 ?m ?f ?o 11 =
          map_option
            (\<lambda>r. preceded_by ([Attempt, Sleep 0, Attempt, Sleep 0, Attempt] @ [FailCall 11])
                   (keeping (resolveOptions ?m ?o) r))
            (eventually' 1 ?m ?f (Some ?new) 42)"
    by (simp add: numeral_2_eq_2)
  then show ?thesis
    by (simp add: eventually_round handleSimpleEventuallyResult.simps run_defs
        preceded_by_def keeping_def)
qed

text \<open>
  Options with \<open>retries: 2\<close>, the backoff sequence \<open>[3, 4]\<close> and a \<open>redirect\<close> that rejects,
  no \<open>fail\<close>: both rounds await \<open>3\<close> and \<open>4\<close>, and the caller's sequence is \<open>[3, 4]\<close>
  afterwards; \<open>fail\<close> is defined afterwards.
\<close>

theorem caller_options_filled_in_place_witness:
  "\<exists>r :: (nat, nat, nat) run.
     eventually' 2 initial_module (\<lambda>s. (Rejects s, Suc s))
       (Some (Options (Some 2) None (Some (Sequence [3, 4]))
                (Some (\<lambda>e s. (Rejects (e + 1), s))))) 0 = Some r
     \<and> delays_of (trace r) = [3, 4, 3, 4]
     \<and> retries (options_after r) = Some 2
     \<and> fail (options_after r) \<noteq> None
     \<and> backoff (options_after r) = Some (Sequence [3, 4])
     \<and> redirect (options_after r) = Some (\<lambda>e s. (Rejects (e + 1), s))"
proof -
  let ?f = "\<lambda>s::nat. (Rejects s, Suc s) :: (nat, nat) settled \<times> nat"
  let ?rd = "\<lambda>(e::nat) (s::nat). (Rejects (e + 1), s) :: (nat, nat) settled \<times> nat"
  let ?o = "Options (Some 2) None (Some (Sequence [3, 4])) (Some ?rd)
              :: (nat, nat, nat) options"
  let ?m = "initial_module :: (nat, nat, nat) module_state"
  obtain r where r: "eventually' 2 ?m ?f (Some ?o) 0 = Some r"
    and d: "delays_of (trace r) = [3, 4, 3, 4]"
    by (simp add: numeral_2_eq_2 eventually'.simps handleSimpleEventuallyResult.simps
        run_defs omit_redirect_def with_array_def preceded_by_def sharing_array_def)
  from caller_options_filled_in_place [OF r] r d show ?thesis by simp
qed

text \<open>
  The array of line 93 is shared: once a caller has pushed \<open>50\<close> onto the array that
  an earlier call put into its options (the array \<open>defaultBackoff\<close> still refers to), a
  call with \<open>{retries: 1}\<close> awaits \<open>50\<close>.
\<close>

lemma loaded_array_changed_by_caller:
  "map_option (\<lambda>r. (outcome r, trace r))
     (eventually' 1 (initial_module\<lparr>defaultBackoff := [50], loadedBackoff := [50]\<rparr>)
        (\<lambda>s. (Rejects 7, s))
        (Some (Options (Some 1) None None None)) (0::nat))
   = Some (Rejected (Thrown 7) :: (nat, nat) outcome,
           [Attempt, Sleep 50, Attempt, FailCall (7::nat)])"
  by (simp add: eventually_round handleSimpleEventuallyResult.simps run_defs
      preceded_by_def)

text \<open>
  C2 fails on the code at the backoff sequence \<open>[0, 5]\<close> with two retries: the delays
  awaited are \<open>5, 5\<close> and not \<open>0, 5\<close>, because \<open>backoff.shift() || fallbackBackoff\<close> takes
  the entry \<open>0\<close> for a missing one.
\<close>

theorem zero_delay_replaced_by_last:
  "tryDo (\<lambda>s. (Rejects (), s)) 2 [0, 5] ()
     = (Rejects (), [Attempt, Sleep 5, Attempt, Sleep 5, Attempt], (), [0, 5])
   \<and> delays_of (fst (snd (tryDo (\<lambda>s. (Rejects (), s)) 2 [0, 5] ()))) \<noteq> [0, 5]"
  by (simp add: tryDo_def tryDo_loop.simps shift_at_def)

text \<open>
  C3 fails on the code for \<open>fail\<close> and \<open>backoff\<close>: after
  \<open>configureDefaults({fail: suppress, backoff: [100]})\<close>, a call with \<open>{retries: 1}\<close> of an
  operation that always rejects with \<open>7\<close> awaits a delay of \<open>0\<close>, not \<open>100\<close>, and rejects
  with \<open>7\<close> instead of resolving with \<open>undefined\<close>: the fields are filled from
  \<open>defaultOptions\<close>, which holds the values of the module's load.
\<close>

theorem configured_fail_and_backoff_not_read:
  "map_option (\<lambda>r. (outcome r, trace r))
     (eventually' 1
        (configureDefaults
           (Options None (Some (\<lambda>e s. (Resolves (Strategy strategy_suppress), s)))
              (Some (Sequence [100])) None)
           initial_module)
        (\<lambda>s. (Rejects 7, s))
        (Some (Options (Some 1) None None None)) (0::nat))
   = Some (Rejected (Thrown 7) :: (nat, nat) outcome,
           [Attempt, Sleep 0, Attempt, FailCall (7::nat)])"
  by (simp add: eventually_round handleSimpleEventuallyResult.simps run_defs
      configureDefaults_def preceded_by_def)

text \<open>
  C4 fails on the code once a default number of retries is configured: after
  \<open>configureDefaults({retries: 2})\<close>, a call with \<open>{retries: 0}\<close> makes three attempts and
  awaits two delays, because \<open>options.retries || defaultRetries\<close> takes the \<open>0\<close> for a
  missing value.
\<close>

theorem explicit_zero_retries_overridden:
  "map_option (\<lambda>r. (outcome r, trace r))
     (eventually' 1
        (configureDefaults (Options (Some 2) None None None) initial_module)
        (\<lambda>s. (Rejects 7, s))
        (Some (Options (Some 0) None None None)) (0::nat))
   = Some (Rejected (Thrown 7) :: (nat, nat) outcome,
           [Attempt, Sleep 0, Attempt, Sleep 0, Attempt, FailCall (7::nat)])"
  by (simp add: eventually_round handleSimpleEventuallyResult.simps run_defs
      configureDefaults_def preceded_by_def)

end
